theory Spec2Isabelle
  imports Main
begin

section \<open>The raw parse tree: what \<open>json.loads\<close> hands to the transform\<close>

text \<open>
  \<open>transform.py\<close> reads one JSON document from standard input and works on the Python
  object \<open>json.loads\<close> returns: \<open>None\<close>, a \<open>bool\<close>, an \<open>int\<close>, a \<open>float\<close>, a \<open>str\<close>,
  a \<open>list\<close> or a \<open>dict\<close> with string keys.  A \<open>dict\<close> iterates in insertion order, which
  for \<open>json.loads\<close> is the order of the fields in the text, so it is an association list
  here; its keys are distinct in every object Python can build.  The transform never
  computes with a number, it only passes it on: a \<open>float\<close> is kept as a mantissa and a
  binary exponent, or one of the three special values \<open>json.loads\<close> accepts.

  A \<open>str\<close> is a sequence of Unicode code points; a \<open>string\<close> here holds the bytes of its
  UTF-8 encoding (a lone surrogate, which \<open>json.loads\<close> accepts as an escape, in the same
  three-byte form).  The script compares strings, concatenates them and hands keys to
  \<open>int\<close>; equality and concatenation of strings are equality and concatenation of their
  encodings, and \<open>int\<close> is modelled on the decoded code points.
\<close>

datatype pyfloat = Float int int | Infinity | NegInfinity | NaN

datatype json =
    JNull
  | JBool bool
  | JInt int
  | JFloat pyfloat
  | JStr string
  | JArr "json list"
  | JObj "(string \<times> json) list"

text \<open>The Scalars of the data model: everything that is neither a \<open>dict\<close> nor a \<open>list\<close>.\<close>

fun is_scalar :: "json \<Rightarrow> bool" where
  "is_scalar (JArr xs) = False"
| "is_scalar (JObj fields) = False"
| "is_scalar v = True"

subsection \<open>The builtin \<open>int\<close> on a string, and \<open>reprsInt\<close>\<close>

text \<open>
  The code points of a string, from its bytes; \<open>None\<close> for bytes that encode no string
  (a stray or missing continuation byte, an over-long form, a value above 1114111).
\<close>

definition cont :: "nat \<Rightarrow> bool" where
  "cont b = (128 \<le> b \<and> b < 192)"

fun utf8_decode :: "nat list \<Rightarrow> nat list option" where
  "utf8_decode [] = Some []"
| "utf8_decode (b # bs) =
     (if b < 128 then map_option ((#) b) (utf8_decode bs)
      else if b < 194 then None
      else if b < 224 then
        (case bs of
           b1 # r \<Rightarrow>
             if cont b1 then map_option ((#) ((b - 192) * 64 + (b1 - 128))) (utf8_decode r)
             else None
         | _ \<Rightarrow> None)
      else if b < 240 then
        (case bs of
           b1 # b2 # r \<Rightarrow>
             (let c = (b - 224) * 4096 + (b1 - 128) * 64 + (b2 - 128)
              in if cont b1 \<and> cont b2 \<and> 2048 \<le> c then map_option ((#) c) (utf8_decode r)
                 else None)
         | _ \<Rightarrow> None)
      else if b < 245 then
        (case bs of
           b1 # b2 # b3 # r \<Rightarrow>
             (let c = (b - 240) * 262144 + (b1 - 128) * 4096 + (b2 - 128) * 64 + (b3 - 128)
              in if cont b1 \<and> cont b2 \<and> cont b3 \<and> 65536 \<le> c \<and> c \<le> 1114111
                 then map_option ((#) c) (utf8_decode r)
                 else None)
         | _ \<Rightarrow> None)
      else None)"

text \<open>
  \<open>reprsInt(s)\<close> calls \<open>int(s)\<close> and returns \<open>False\<close> when that raises \<open>ValueError\<close>.  The
  builtin is not part of the script; \<open>int_str\<close> is CPython 3's \<open>int\<close> on a \<open>str\<close>, with
  \<open>None\<close> for \<open>ValueError\<close>:

  \<^item> white space around the number is skipped.  Below code point 127 white space is what
    C's \<open>isspace\<close> accepts, the code points 9 to 13 and 32 (so the separators 28 to 31,
    for which \<open>str.isspace\<close> is true, are not white space here); from 127 on it is the
    white space of the Unicode database, listed in \<open>uspace\<close>;
  \<^item> one sign, \<open>+\<close> (43) or \<open>-\<close> (45), may come first;
  \<^item> then come decimal digits, with single underscores (95) allowed between two digits.
    Below 127 the digits are \<open>0\<close> to \<open>9\<close> (48 to 57); from 127 on they are the code points
    of the Unicode database that have a decimal value, which lie in runs of ten, for the
    values 0 to 9, that begin at the code points of \<open>digit_starts\<close>;
  \<^item> more than \<open>max_str_digits\<close> digits are refused, with a \<open>ValueError\<close> too.

  The two tables are those of Unicode 14.0 (Python 3.11), and the limit on the digits is
  the default of the interpreters that have one (\<open>sys.int_info.default_max_str_digits\<close>).
\<close>

definition uspace :: "nat list" where
  "uspace =
     [133, 160, 5760, 8192, 8193, 8194, 8195, 8196, 8197, 8198, 8199, 8200, 8201, 8202,
      8232, 8233, 8239, 8287, 12288]"

definition isspace :: "nat \<Rightarrow> bool" where
  "isspace c = (if c < 127 then c \<in> set [9, 10, 11, 12, 13, 32] else c \<in> set uspace)"

definition digit_starts :: "nat list" where
  "digit_starts =
     [1632, 1776, 1984, 2406, 2534, 2662, 2790, 2918, 3046, 3174, 3302, 3430, 3558, 3664,
      3792, 3872, 4160, 4240, 6112, 6160, 6470, 6608, 6784, 6800, 6992, 7088, 7232, 7248,
      42528, 43216, 43264, 43472, 43504, 43600, 44016, 65296, 66720, 68912, 69734, 69872,
      69942, 70096, 70384, 70736, 70864, 71248, 71360, 71472, 71904, 72016, 72784, 73040,
      73120, 92768, 92864, 93008, 120782, 120792, 120802, 120812, 120822, 123200, 123632,
      125264, 130032]"

definition udecimal :: "nat \<Rightarrow> nat option" where
  "udecimal c = map_option (\<lambda>s. c - s) (find (\<lambda>s. s \<le> c \<and> c < s + 10) digit_starts)"

definition decimal :: "nat \<Rightarrow> nat option" where
  "decimal c =
     (if c < 127 then (if 48 \<le> c \<and> c \<le> 57 then Some (c - 48) else None)
      else udecimal c)"

definition isdigit :: "nat \<Rightarrow> bool" where
  "isdigit c = (decimal c \<noteq> None)"

definition lstrip :: "nat list \<Rightarrow> nat list" where
  "lstrip s = dropWhile isspace s"

definition rstrip :: "nat list \<Rightarrow> nat list" where
  "rstrip s = rev (dropWhile isspace (rev s))"

fun drop_sign :: "nat list \<Rightarrow> nat list" where
  "drop_sign [] = []"
| "drop_sign (c # cs) = (if c = 43 \<or> c = 45 then cs else c # cs)"

text \<open>\<open>digit ("_"? digit)*\<close>: a digit first, a digit last, never two underscores in a row.\<close>

fun digits_ok :: "nat list \<Rightarrow> bool" where
  "digits_ok [] = False"
| "digits_ok [c] = isdigit c"
| "digits_ok (c # d # cs) =
     (isdigit c \<and> (if d = 95 then digits_ok cs else digits_ok (d # cs)))"

definition max_str_digits :: nat where
  "max_str_digits = 4300"

definition int_str :: "string \<Rightarrow> int option" where
  "int_str s =
     (case utf8_decode (map of_char s) of
        None \<Rightarrow> None
      | Some cps \<Rightarrow>
          (let t = lstrip (rstrip cps);
               ds = filter isdigit (drop_sign t);
               m = foldl (\<lambda>a d. 10 * a + int d) 0 (map (the \<circ> decimal) ds)
           in if digits_ok (drop_sign t) \<and> length ds \<le> max_str_digits
              then Some (if take 1 t = [45] then - m else m)
              else None))"

definition reprsInt :: "string \<Rightarrow> bool" where
  "reprsInt s = (case int_str s of Some i \<Rightarrow> True | None \<Rightarrow> False)"

section \<open>The intermediate tree: class \<open>Node\<close>\<close>

text \<open>
  A \<open>Node\<close> has the three attributes \<open>tag\<close>, \<open>children\<close> and \<open>value\<close>.  \<open>tag\<close> and \<open>value\<close>
  hold whatever Python object is assigned to them, \<open>None\<close> (\<open>JNull\<close>) when unset: the
  constructor sets \<open>tag = None\<close>, \<open>children = []\<close>, \<open>value = None\<close>.  The attribute
  \<open>value\<close> is the selector \<open>val\<close>.
\<close>

datatype Node = Node (tag: json) (children: "Node list") (val: json)

definition fromValue :: "json \<Rightarrow> Node" where
  "fromValue v = Node JNull [] v"

text \<open>
  The loop \<open>v = Node.fromInput(x); if v != None: result.children.append(v)\<close>, given the
  results of the calls in order.
\<close>

fun append_nodes :: "Node option list \<Rightarrow> Node list" where
  "append_nodes [] = []"
| "append_nodes (None # vs) = append_nodes vs"
| "append_nodes (Some v # vs) = v # append_nodes vs"

text \<open>
  \<open>Node.fromInput\<close>.  \<open>inNode["tag"]\<close> and \<open>inNode[k]\<close> are look-ups (\<open>map_of\<close>); the loop
  \<open>for k in inNode\<close> runs over the keys in the order of the fields.  A \<open>KeyError\<close> on
  \<open>"tag"\<close> returns \<open>None\<close>; \<open>inNode[k]\<close> cannot raise, \<open>k\<close> being a key of \<open>inNode\<close>.
\<close>

function fromInput :: "json \<Rightarrow> Node option" where
  "fromInput (JObj fields) =
     (case map_of fields ''tag'' of
        None \<Rightarrow> None
      | Some t \<Rightarrow>
          Some (Node t
            (append_nodes
               (map (\<lambda>k. fromInput (the (map_of fields k)))
                    (filter reprsInt (map fst fields))))
            JNull))"
| "fromInput (JArr xs) = Some (Node JNull (append_nodes (map fromInput xs)) JNull)"
| "fromInput JNull = Some (fromValue JNull)"
| "fromInput (JBool b) = Some (fromValue (JBool b))"
| "fromInput (JInt i) = Some (fromValue (JInt i))"
| "fromInput (JFloat f) = Some (fromValue (JFloat f))"
| "fromInput (JStr s) = Some (fromValue (JStr s))"
  by pat_completeness auto
termination
proof (relation "measure size")
  show "wf (measure (size :: json \<Rightarrow> nat))" by simp
next
  fix fields :: "(string \<times> json) list" and t :: json and k :: string
  assume k: "k \<in> set (filter reprsInt (map fst fields))"
  have "\<And>k. k \<in> fst ` set fs \<Longrightarrow>
          size (the (map_of fs k)) < Suc (size_list (size_prod (\<lambda>_. 0) size) fs)"
    for fs :: "(string \<times> json) list"
  proof (induction fs)
    case Nil
    then show ?case by simp
  next
    case (Cons f fs)
    show ?case
    proof (cases "k = fst f")
      case True
      then show ?thesis by (cases f) simp
    next
      case False
      with Cons.prems have "k \<in> fst ` set fs" by auto
      from Cons.IH [OF this] False show ?thesis by (cases f) simp
    qed
  qed
  with k show "(the (map_of fields k), JObj fields) \<in> measure size"
    by simp
next
  fix xs :: "json list" and x :: json
  assume "x \<in> set xs"
  then have "size x < Suc (size_list size xs)"
    by (induction xs) auto
  then show "(x, JArr xs) \<in> measure size" by simp
qed

section \<open>The canonical encoder: \<open>Node.toDict\<close>\<close>

text \<open>
  What \<open>toDict\<close> returns: the \<open>value\<close> of a leaf or a constant (\<open>CVal\<close>), a \<open>list\<close>
  (\<open>CList\<close>), or a \<open>dict\<close> (\<open>CDict\<close>) whose key is a string constant, an operator name or
  the node's \<open>tag\<close>.
\<close>

datatype canon =
    CVal json
  | CList "canon list"
  | CDict "(json \<times> canon) list"

text \<open>
  The ways the script stops: a failed \<open>assert\<close>, the \<open>Exception\<close> raised by \<open>_mapOpName\<close>
  with its message, a \<open>TypeError\<close> (a string concatenated with something that is not a
  string, an unhashable \<open>dict\<close> key), and the \<open>AttributeError\<close> of calling \<open>toDict\<close> on
  \<open>None\<close>.
\<close>

datatype error = AssertionError | Exception string | TypeError | AttributeError

subsection \<open>\<open>Node._mapOpName\<close>\<close>

definition opTable :: "(string \<times> string) list" where
  "opTable =
     [(''add'', ''Add''), (''sub'', ''Sub''), (''mul'', ''Mul''), (''div'', ''Div''),
      (''mod'', ''Mod''), (''pow'', ''Pow''), (''eq'', ''Eq''), (''ne'', ''Ne''),
      (''lt'', ''Lt''), (''gt'', ''Gt''), (''le'', ''Le''), (''ge'', ''Ge''),
      (''not'', ''Not''), (''unm'', ''Unm''), (''concat'', ''Concat''),
      (''and'', ''And''), (''or'', ''Or'')]"

text \<open>
  \<open>name\<close> is the \<open>value\<close> of a node.  Only a string can be a key of \<open>opTable\<close>; for
  any other \<open>name\<close> the test \<open>name in opTable\<close> is false and building the message,
  \<open>"Unknown op name: " + name\<close>, raises \<open>TypeError\<close>.
\<close>

fun mapOpName :: "json \<Rightarrow> error + string" where
  "mapOpName (JStr name) =
     (case map_of opTable name of
        Some opName \<Rightarrow> Inr opName
      | None \<Rightarrow> Inl (Exception (''Unknown op name: '' @ name)))"
| "mapOpName name = Inl TypeError"

subsection \<open>Helpers of the encoder\<close>

text \<open>
  \<open>list(map(lambda x: x.toDict(), ...))\<close> and the loop of the \<open>If\<close> case evaluate
  their calls from left to right and stop at the first one that raises.
\<close>

fun sequence :: "(error + 'a) list \<Rightarrow> error + 'a list" where
  "sequence [] = Inr []"
| "sequence (r # rs) =
     (case r of
        Inl e \<Rightarrow> Inl e
      | Inr y \<Rightarrow> (case sequence rs of Inl e \<Rightarrow> Inl e | Inr ys \<Rightarrow> Inr (y # ys)))"

text \<open>A \<open>list\<close> or a \<open>dict\<close> cannot be the key of a \<open>dict\<close>.\<close>

fun hashable :: "json \<Rightarrow> bool" where
  "hashable (JArr xs) = False"
| "hashable (JObj fields) = False"
| "hashable k = True"

text \<open>
  The statements after the \<open>if\<close>/\<open>elif\<close> chain, which every branch that does not return
  falls through to: \<open>v\<close> is the list of the encoded children, \<open>r\<close> the outcome of
  computing it.
\<close>

definition fallthrough :: "json \<Rightarrow> error + canon list \<Rightarrow> error + canon" where
  "fallthrough tg r =
     (case r of
        Inl e \<Rightarrow> Inl e
      | Inr v \<Rightarrow>
          if tg = JNull then Inr (CList v)
          else if hashable tg then Inr (CDict [(tg, CList v)])
          else Inl TypeError)"

lemma size_nth_children:
  "i < length cs \<Longrightarrow> size (cs ! i) < Suc (size_list size cs)"
proof (induction cs arbitrary: i)
  case Nil
  then show ?case by simp
next
  case (Cons c cs)
  then show ?case by (cases i) (simp, fastforce)
qed

lemma size_mem_children:
  "c \<in> set cs \<Longrightarrow> size c < Suc (size_list size cs)"
  by (auto simp: in_set_conv_nth size_nth_children)

subsection \<open>\<open>toDict\<close>\<close>

function toDict :: "Node \<Rightarrow> error + canon" where
  "toDict (Node tg cs v) =
     (if v \<noteq> JNull then Inr (CVal v)
      else if tg = JStr ''Op'' then
        (if length cs = 3 then
           (case mapOpName (val (cs ! 2)) of
              Inl e \<Rightarrow> Inl e
            | Inr opName \<Rightarrow>
                (case toDict (cs ! 0) of
                   Inl e \<Rightarrow> Inl e
                 | Inr c0 \<Rightarrow>
                     (case toDict (cs ! 1) of
                        Inl e \<Rightarrow> Inl e
                      | Inr c1 \<Rightarrow> Inr (CDict [(JStr opName, CList [c0, c1])]))))
         else if length cs = 2 then
           (case mapOpName (val (cs ! 0)) of
              Inl e \<Rightarrow> Inl e
            | Inr opName \<Rightarrow>
                (case toDict (cs ! 1) of
                   Inl e \<Rightarrow> Inl e
                 | Inr c1 \<Rightarrow> Inr (CDict [(JStr opName, c1)])))
         else Inl AssertionError)
      else if tg = JStr ''NameList'' \<or> tg = JStr ''ExpList'' \<or> tg = JStr ''VarList'' then
        (case sequence (map toDict cs) of
           Inl e \<Rightarrow> Inl e
         | Inr l \<Rightarrow> Inr (CList l))
      else if tg = JStr ''Id'' then
        (if length cs = 1 then Inr (CDict [(JStr ''Id'', CVal (val (cs ! 0)))])
         else Inl AssertionError)
      else if tg = JStr ''Number'' \<or> tg = JStr ''Boolean'' \<or> tg = JStr ''String'' then
        (if length cs = 1 then Inr (CDict [(tg, CVal (val (cs ! 0)))])
         else Inl AssertionError)
      else if tg = JStr ''False'' then Inr (CDict [(JStr ''Boolean'', CVal (JBool False))])
      else if tg = JStr ''True'' then Inr (CDict [(JStr ''Boolean'', CVal (JBool True))])
      else if tg = JStr ''Call'' then
        (if length cs \<ge> 1 then
           (case sequence (map toDict cs) of
              Inl e \<Rightarrow> Inl e
            | Inr argList \<Rightarrow>
                (case toDict (cs ! 0) of
                   Inl e \<Rightarrow> Inl e
                 | Inr c0 \<Rightarrow> Inr (CDict [(JStr ''Call'', CList [c0, CList (tl argList)])])))
         else Inl AssertionError)
      else if tg = JStr ''Fornum'' then
        (if length cs = 4 then
           (case toDict (cs ! 0) of
              Inl e \<Rightarrow> Inl e
            | Inr c0 \<Rightarrow>
                (case toDict (cs ! 1) of
                   Inl e \<Rightarrow> Inl e
                 | Inr c1 \<Rightarrow>
                     (case toDict (cs ! 2) of
                        Inl e \<Rightarrow> Inl e
                      | Inr c2 \<Rightarrow>
                          (case toDict (cs ! 3) of
                             Inl e \<Rightarrow> Inl e
                           | Inr c3 \<Rightarrow>
                               Inr (CDict [(JStr ''Fornum'',
                                            CList [c0, c1, c2, CVal JNull, c3])])))))
         else if length cs = 5 then fallthrough tg (sequence (map toDict cs))
         else Inl AssertionError)
      else if tg = JStr ''Function'' then
        (if length cs = 1 then
           (case toDict (cs ! 0) of
              Inl e \<Rightarrow> Inl e
            | Inr c0 \<Rightarrow> Inr (CDict [(JStr ''Function'', CList [CList [], c0])]))
         else fallthrough tg (sequence (map toDict cs)))
      else if tg = JStr ''If'' then
        (case sequence
                (map (\<lambda>i. case toDict (cs ! (i * 2)) of
                             Inl e \<Rightarrow> Inl e
                           | Inr c \<Rightarrow>
                               (case toDict (cs ! (i * 2 + 1)) of
                                  Inl e \<Rightarrow> Inl e
                                | Inr b \<Rightarrow> Inr (CList [c, b])))
                     [0 ..< length cs div 2]) of
           Inl e \<Rightarrow> Inl e
         | Inr branchList \<Rightarrow>
             (if length cs mod 2 = 1 then
                (case toDict (cs ! (length cs - 1)) of
                   Inl e \<Rightarrow> Inl e
                 | Inr elseBranch \<Rightarrow>
                     Inr (CDict [(JStr ''If'', CList [CList branchList, elseBranch])]))
              else Inr (CDict [(JStr ''If'', CList [CList branchList, CVal JNull])])))
      else if tg = JStr ''Break'' then Inr (CVal (JStr ''Break''))
      else if tg = JStr ''Paren'' then
        (if length cs = 1 then toDict (cs ! 0) else Inl AssertionError)
      else fallthrough tg (sequence (map toDict cs)))"
  by pat_completeness auto
termination
proof (relation "measure size", goal_cases)
  case 1
  show ?case by simp
qed (auto simp: size_nth_children size_mem_children Suc_le_eq)

section \<open>The script: \<open>Node.fromInput(inAst).toDict()\<close>\<close>

text \<open>
  The last line of the script builds the tree and encodes it.  When \<open>fromInput\<close> returns
  \<open>None\<close>, the call \<open>None.toDict()\<close> raises \<open>AttributeError\<close>.  (\<open>json.loads\<close> before and
  \<open>json.dumps\<close> and \<open>print\<close> after are outside the model.)
\<close>

definition transform :: "json \<Rightarrow> error + canon" where
  "transform inAst =
     (case fromInput inAst of
        None \<Rightarrow> Inl AttributeError
      | Some node \<Rightarrow> toDict node)"

section \<open>The specification's words\<close>

text \<open>
  Two notions the specification uses and the script does not compute.  The first is the
  number \<open>int(k)\<close> a key stands for (for a key that \<open>reprsInt\<close> accepts), and the list of
  children the specification describes for an object: built from the fields whose keys
  parse as integers, taken in the order of increasing key.
\<close>

definition key_int :: "string \<Rightarrow> int" where
  "key_int s = (case int_str s of Some i \<Rightarrow> i | None \<Rightarrow> 0)"

definition children_by_key :: "(string \<times> json) list \<Rightarrow> Node list" where
  "children_by_key fields =
     append_nodes
       (map (fromInput \<circ> snd) (sort_key (key_int \<circ> fst) (filter (reprsInt \<circ> fst) fields)))"

text \<open>
  The second is the PascalCase form of a lower-case operator identifier: its first
  letter in upper case.
\<close>

definition upper :: "char \<Rightarrow> char" where
  "upper c =
     (case map_of (zip ''abcdefghijklmnopqrstuvwxyz'' ''ABCDEFGHIJKLMNOPQRSTUVWXYZ'') c of
        Some u \<Rightarrow> u
      | None \<Rightarrow> c)"

fun pascal :: "string \<Rightarrow> string" where
  "pascal [] = []"
| "pascal (c # cs) = upper c # cs"

section \<open>Facts used throughout\<close>

text \<open>What evaluates \<open>reprsInt\<close> and \<open>int_str\<close> on a key of characters below 127.\<close>

lemmas reprsInt_eval =
  reprsInt_def int_str_def cont_def lstrip_def rstrip_def isspace_def
  isdigit_def decimal_def max_str_digits_def

lemma not_reprsInt_tag: "\<not> reprsInt ''tag''"
  by (simp add: reprsInt_eval)

text \<open>
  Some values of \<open>int_str\<close>: plain and signed numbers, underscores and white space; the
  separator 28 is not white space for \<open>int\<close>, the code point 133 is; the Arabic-Indic
  digit one and the full-width digit two are digits, the superscript two is not.
\<close>

lemma udecimal_examples:
  "udecimal 1633 = Some 1" "udecimal 65298 = Some 2" "udecimal 178 = None"
  by (simp_all add: udecimal_def digit_starts_def)

lemma int_str_examples:
  "int_str ''0'' = Some 0"
  "int_str ''12'' = Some 12"
  "int_str '' -1_0 '' = Some (- 10)"
  "int_str ''tag'' = None"
  "int_str ''1__0'' = None"
  "int_str ''- 5'' = None"
  "int_str [CHR 0x1C, CHR ''0''] = None"
  "int_str [CHR 0xC2, CHR 0x85, CHR ''0''] = Some 0"
  "int_str [CHR 0xD9, CHR 0xA1, CHR 0xEF, CHR 0xBC, CHR 0x92] = Some 12"
  "int_str [CHR 0xC2, CHR 0xB2] = None"
  by (simp_all add: reprsInt_eval uspace_def udecimal_examples)

text \<open>
  Accordingly a field whose key is the separator 28 followed by \<open>0\<close> is not a child, and
  a field whose key is the Arabic-Indic digit one is.
\<close>

lemma fromInput_key_examples:
  "fromInput (JObj [(''tag'', JStr ''X''), ([CHR 0x1C, CHR ''0''], JStr ''a''), (''1'', JStr ''b'')])
     = Some (Node (JStr ''X'') [Node JNull [] (JStr ''b'')] JNull)"
  "fromInput (JObj [(''tag'', JStr ''X''), ([CHR 0xD9, CHR 0xA1], JStr ''a'')])
     = Some (Node (JStr ''X'') [Node JNull [] (JStr ''a'')] JNull)"
  by (simp_all add: reprsInt_eval uspace_def udecimal_examples fromValue_def)

lemma sequence_map_Inr: "sequence (map Inr ys) = Inr ys"
  by (induction ys) simp_all

lemma sequence_eq_Inr: "map f xs = map Inr ys \<Longrightarrow> sequence (map f xs) = Inr ys"
  by (simp add: sequence_map_Inr)

lemma append_nodes_append: "append_nodes (xs @ ys) = append_nodes xs @ append_nodes ys"
  by (induction xs rule: append_nodes.induct) simp_all

lemma set_append_nodes: "set (append_nodes vs) = {c. Some c \<in> set vs}"
  by (induction vs rule: append_nodes.induct) auto

text \<open>
  In a \<open>dict\<close> the keys are distinct, and then looking up each key in turn is the same as
  walking through the fields.
\<close>

lemma fromInput_items:
  assumes "distinct (map fst fields)"
  shows "map (\<lambda>k. fromInput (the (map_of fields k))) (filter reprsInt (map fst fields))
         = map (fromInput \<circ> snd) (filter (reprsInt \<circ> fst) fields)"
proof -
  have "map_of fields (fst p) = Some (snd p)" if "p \<in> set fields" for p
    using assms that by (cases p) simp
  then show ?thesis
    by (simp add: filter_map)
qed

subsection \<open>The nodes \<open>fromInput\<close> builds\<close>

text \<open>
  The theorems on \<open>toDict\<close> below are about nodes whose \<open>value\<close> is \<open>None\<close>.  Every node
  \<open>fromInput\<close> builds that has a tag or children is such a node, at every depth: a
  \<open>value\<close> is only ever set by \<open>fromValue\<close>, on a node with no tag and no children.
\<close>

fun built :: "Node \<Rightarrow> bool" where
  "built (Node tg cs v) = ((v = JNull \<or> tg = JNull \<and> cs = []) \<and> list_all built cs)"

lemma fromInput_built: "fromInput raw = Some n \<Longrightarrow> built n"
proof (induction raw arbitrary: n rule: fromInput.induct)
  case (1 fields)
  then obtain t where t: "map_of fields ''tag'' = Some t"
    by (cases "map_of fields ''tag''") simp_all
  let ?vs = "map (\<lambda>k. fromInput (the (map_of fields k))) (filter reprsInt (map fst fields))"
  from "1.prems" t have n: "n = Node t (append_nodes ?vs) JNull" by simp
  have "built c" if "c \<in> set (append_nodes ?vs)" for c
  proof -
    from that have "Some c \<in> set ?vs" by (simp add: set_append_nodes)
    then obtain k where "k \<in> set (filter reprsInt (map fst fields))"
      and "Some c = fromInput (the (map_of fields k))"
      unfolding set_map by blast
    then show ?thesis using "1.IH" [OF t, of k c] by simp
  qed
  then show ?case by (simp add: n list_all_iff)
next
  case (2 xs)
  then have n: "n = Node JNull (append_nodes (map fromInput xs)) JNull" by simp
  have "built c" if "c \<in> set (append_nodes (map fromInput xs))" for c
  proof -
    from that have "Some c \<in> set (map fromInput xs)" by (simp add: set_append_nodes)
    then obtain x where "x \<in> set xs" and "Some c = fromInput x"
      unfolding set_map by blast
    then show ?thesis using "2.IH" [of x c] by simp
  qed
  then show ?case by (simp add: n list_all_iff)
qed (auto simp: fromValue_def)

lemma fromInput_tagged_val:
  assumes "fromInput raw = Some n" and "tag n \<noteq> JNull"
  shows "val n = JNull"
proof (cases n)
  case (Node tg cs v)
  with fromInput_built [OF assms(1)] assms(2) show ?thesis by simp
qed

section \<open>Operators\<close>

text \<open>
  C1: an \<open>Op\<close> node with exactly three children encodes as the single-key mapping from
  the operator name, resolved from the value of child 2, to the list of the encodings
  of child 0 and child 1; with exactly two children, as the single-key mapping from the
  name resolved from the value of child 0 to the encoding of child 1.  Nothing but the
  number of children selects the form: with any other number the \<open>assert\<close> fails.
\<close>

theorem op_encoding:
  "tag n = JStr ''Op'' \<Longrightarrow> val n = JNull \<Longrightarrow>
   (length (children n) = 3 \<and> mapOpName (val (children n ! 2)) = Inr opName \<and>
      toDict (children n ! 0) = Inr c0 \<and> toDict (children n ! 1) = Inr c1
      \<longrightarrow> toDict n = Inr (CDict [(JStr opName, CList [c0, c1])])) \<and>
   (length (children n) = 2 \<and> mapOpName (val (children n ! 0)) = Inr opName' \<and>
      toDict (children n ! 1) = Inr c1'
      \<longrightarrow> toDict n = Inr (CDict [(JStr opName', c1')])) \<and>
   (length (children n) \<noteq> 3 \<and> length (children n) \<noteq> 2 \<longrightarrow> toDict n = Inl AssertionError)"
  by (cases n) simp

theorem op_encoding_witness:
  "toDict (Node (JStr ''Op'')
      [Node JNull [] (JInt 1), Node JNull [] (JInt 2), Node JNull [] (JStr ''add'')] JNull)
     = Inr (CDict [(JStr ''Add'', CList [CVal (JInt 1), CVal (JInt 2)])]) \<and>
   toDict (Node (JStr ''Op'') [Node JNull [] (JStr ''not''), Node JNull [] (JBool True)] JNull)
     = Inr (CDict [(JStr ''Not'', CVal (JBool True))]) \<and>
   toDict (Node (JStr ''Op'') [Node JNull [] (JStr ''not'')] JNull) = Inl AssertionError"
  using
    op_encoding [where n = "Node (JStr ''Op'')
        [Node JNull [] (JInt 1), Node JNull [] (JInt 2), Node JNull [] (JStr ''add'')] JNull"
      and opName = "''Add''" and ?c0.0 = "CVal (JInt 1)" and ?c1.0 = "CVal (JInt 2)"]
    op_encoding [where n = "Node (JStr ''Op'')
        [Node JNull [] (JStr ''not''), Node JNull [] (JBool True)] JNull"
      and opName' = "''Not''" and c1' = "CVal (JBool True)"]
    op_encoding [where n = "Node (JStr ''Op'') [Node JNull [] (JStr ''not'')] JNull"]
  by (simp add: opTable_def)

text \<open>
  C8, as the specification states it: when the operator-name child of an \<open>Op\<close> node
  holds a scalar that is not in the table, encoding fails with an unknown-operator error
  whose message contains that scalar.  \<open>_mapOpName\<close> builds the message as
  \<open>"Unknown op name: " + name\<close>, which is defined for a string only: for the number \<open>5\<close>
  (binary form) and for \<open>true\<close> (unary form) the concatenation itself raises a
  \<open>TypeError\<close>, and no error names the operator.
\<close>

theorem nonstring_operator_counterexample:
  "fromInput (JObj [(''tag'', JStr ''Op''), (''0'', JInt 1), (''1'', JInt 2), (''2'', JInt 5)])
     = Some (Node (JStr ''Op'')
               [Node JNull [] (JInt 1), Node JNull [] (JInt 2), Node JNull [] (JInt 5)] JNull) \<and>
   is_scalar (JInt 5) \<and>
   transform (JObj [(''tag'', JStr ''Op''), (''0'', JInt 1), (''1'', JInt 2), (''2'', JInt 5)])
     = Inl TypeError \<and>
   is_scalar (JBool True) \<and>
   transform (JObj [(''tag'', JStr ''Op''), (''0'', JBool True), (''1'', JInt 2)])
     = Inl TypeError"
  by (simp add: transform_def fromValue_def reprsInt_eval)

text \<open>
  C8, amended: when the operator-name child of an \<open>Op\<close> node holds a string that is not a
  key of the table, encoding raises the \<open>Exception\<close> whose message is \<open>Unknown op name: \<close>
  followed by that string, before any operand is encoded.  The seventeen identifiers
  \<open>add\<close>, \<open>sub\<close>, \<open>mul\<close>, \<open>div\<close>, \<open>mod\<close>, \<open>pow\<close>, \<open>eq\<close>, \<open>ne\<close>, \<open>lt\<close>, \<open>gt\<close>, \<open>le\<close>, \<open>ge\<close>,
  \<open>not\<close>, \<open>unm\<close>, \<open>concat\<close>, \<open>and\<close>, \<open>or\<close> resolve to \<open>Add\<close>, \<open>Sub\<close>, \<open>Mul\<close>, \<open>Div\<close>, \<open>Mod\<close>,
  \<open>Pow\<close>, \<open>Eq\<close>, \<open>Ne\<close>, \<open>Lt\<close>, \<open>Gt\<close>, \<open>Le\<close>, \<open>Ge\<close>, \<open>Not\<close>, \<open>Unm\<close>, \<open>Concat\<close>, \<open>And\<close>, \<open>Or\<close>;
  they are all the keys of the table, and every key resolves to its entry, which is the
  key in PascalCase.
\<close>

lemma unknown_binary:
  "tag n = JStr ''Op'' \<Longrightarrow> val n = JNull \<Longrightarrow> map_of opTable name = None \<Longrightarrow>
   length (children n) = 3 \<Longrightarrow> val (children n ! 2) = JStr name \<Longrightarrow>
   toDict n = Inl (Exception (''Unknown op name: '' @ name))"
  by (cases n) simp

lemma unknown_unary:
  "tag n = JStr ''Op'' \<Longrightarrow> val n = JNull \<Longrightarrow> map_of opTable name = None \<Longrightarrow>
   length (children n) = 2 \<Longrightarrow> val (children n ! 0) = JStr name \<Longrightarrow>
   toDict n = Inl (Exception (''Unknown op name: '' @ name))"
  by (cases n) simp

lemma seventeen_resolve:
  "map (\<lambda>name. mapOpName (JStr name))
     [''add'', ''sub'', ''mul'', ''div'', ''mod'', ''pow'', ''eq'', ''ne'', ''lt'', ''gt'',
      ''le'', ''ge'', ''not'', ''unm'', ''concat'', ''and'', ''or'']
   = map Inr
     [''Add'', ''Sub'', ''Mul'', ''Div'', ''Mod'', ''Pow'', ''Eq'', ''Ne'', ''Lt'', ''Gt'',
      ''Le'', ''Ge'', ''Not'', ''Unm'', ''Concat'', ''And'', ''Or'']"
  by (simp add: opTable_def)

lemma opTable_resolves:
  "\<forall>(name, opName) \<in> set opTable.
     name \<in> set [''add'', ''sub'', ''mul'', ''div'', ''mod'', ''pow'', ''eq'', ''ne'', ''lt'',
                  ''gt'', ''le'', ''ge'', ''not'', ''unm'', ''concat'', ''and'', ''or''] \<and>
     mapOpName (JStr name) = Inr opName \<and> opName = pascal name"
  by (simp add: opTable_def upper_def)

theorem operator_resolution:
  "(tag n = JStr ''Op'' \<and> val n = JNull \<and> map_of opTable name = None \<and>
      (length (children n) = 3 \<and> val (children n ! 2) = JStr name \<or>
       length (children n) = 2 \<and> val (children n ! 0) = JStr name)
      \<longrightarrow> toDict n = Inl (Exception (''Unknown op name: '' @ name))) \<and>
   map (\<lambda>name. mapOpName (JStr name))
     [''add'', ''sub'', ''mul'', ''div'', ''mod'', ''pow'', ''eq'', ''ne'', ''lt'', ''gt'',
      ''le'', ''ge'', ''not'', ''unm'', ''concat'', ''and'', ''or'']
   = map Inr
     [''Add'', ''Sub'', ''Mul'', ''Div'', ''Mod'', ''Pow'', ''Eq'', ''Ne'', ''Lt'', ''Gt'',
      ''Le'', ''Ge'', ''Not'', ''Unm'', ''Concat'', ''And'', ''Or''] \<and>
   (\<forall>(name, opName) \<in> set opTable.
      name \<in> set [''add'', ''sub'', ''mul'', ''div'', ''mod'', ''pow'', ''eq'', ''ne'', ''lt'',
                   ''gt'', ''le'', ''ge'', ''not'', ''unm'', ''concat'', ''and'', ''or''] \<and>
      mapOpName (JStr name) = Inr opName \<and> opName = pascal name)"
proof (intro conjI impI)
  assume "tag n = JStr ''Op'' \<and> val n = JNull \<and> map_of opTable name = None \<and>
      (length (children n) = 3 \<and> val (children n ! 2) = JStr name \<or>
       length (children n) = 2 \<and> val (children n ! 0) = JStr name)"
  then show "toDict n = Inl (Exception (''Unknown op name: '' @ name))"
    using unknown_binary [of n name] unknown_unary [of n name] by blast
qed (rule seventeen_resolve, rule opTable_resolves)

theorem operator_resolution_witness:
  "toDict (Node (JStr ''Op'')
      [Node JNull [] (JInt 1), Node JNull [] (JInt 2), Node JNull [] (JStr ''xor'')] JNull)
     = Inl (Exception ''Unknown op name: xor'') \<and>
   toDict (Node (JStr ''Op'') [Node JNull [] (JStr ''xor''), Node JNull [] (JInt 2)] JNull)
     = Inl (Exception ''Unknown op name: xor'') \<and>
   mapOpName (JStr ''concat'') = Inr ''Concat'' \<and> ''Concat'' = pascal ''concat''"
proof -
  let ?b = "Node (JStr ''Op'')
      [Node JNull [] (JInt 1), Node JNull [] (JInt 2), Node JNull [] (JStr ''xor'')] JNull"
  let ?u = "Node (JStr ''Op'') [Node JNull [] (JStr ''xor''), Node JNull [] (JInt 2)] JNull"
  have x: "map_of opTable ''xor'' = None" by (simp add: opTable_def)
  have b: "toDict ?b = Inl (Exception (''Unknown op name: '' @ ''xor''))"
    by (rule operator_resolution [of ?b "''xor''", THEN conjunct1, THEN mp]) (simp add: x)
  have u: "toDict ?u = Inl (Exception (''Unknown op name: '' @ ''xor''))"
    by (rule operator_resolution [of ?u "''xor''", THEN conjunct1, THEN mp]) (simp add: x)
  have "(''concat'', ''Concat'') \<in> set opTable" by (simp add: opTable_def)
  with operator_resolution [of ?b "''xor''", THEN conjunct2, THEN conjunct2]
  have "case (''concat'', ''Concat'') of
          (name, opName) \<Rightarrow>
            name \<in> set [''add'', ''sub'', ''mul'', ''div'', ''mod'', ''pow'', ''eq'', ''ne'', ''lt'',
                         ''gt'', ''le'', ''ge'', ''not'', ''unm'', ''concat'', ''and'', ''or''] \<and>
            mapOpName (JStr name) = Inr opName \<and> opName = pascal name"
    by (rule bspec)
  then have "mapOpName (JStr ''concat'') = Inr ''Concat'' \<and> ''Concat'' = pascal ''concat''"
    by (simp only: prod.case)
  with b u show ?thesis by simp
qed

section \<open>Scalars\<close>

text \<open>
  C7, as the specification states it: every Raw Scalar, \<open>null\<close> included, is built into a
  leaf whose \<open>value\<close> is that scalar and is encoded as itself.  The leaf is built as
  stated, but \<open>toDict\<close> tests \<open>self.value != None\<close>, and on the leaf of \<open>null\<close> that test
  fails: the node is encoded by the rule for a node without a tag, as the list of its
  (no) children.  The transform maps \<open>null\<close> to \<open>[]\<close>.
\<close>

theorem null_scalar_counterexample:
  "is_scalar JNull \<and> transform JNull = Inr (CList []) \<and> transform JNull \<noteq> Inr (CVal JNull)"
  by (simp add: transform_def fromValue_def fallthrough_def)

text \<open>
  C7, amended: every Raw Scalar is built into a leaf with \<open>value\<close> set to that scalar, no
  tag and no children; a node whose \<open>value\<close> is a scalar other than \<open>null\<close> is encoded as
  that scalar whatever its tag and children are; so the transform maps every scalar
  other than \<open>null\<close> to itself.
\<close>

theorem scalar_roundtrip:
  "is_scalar s \<Longrightarrow>
     fromInput s = Some (Node JNull [] s) \<and>
     (s \<noteq> JNull \<longrightarrow> toDict (Node t cs s) = Inr (CVal s) \<and> transform s = Inr (CVal s))"
  by (cases s) (simp_all add: transform_def fromValue_def)

theorem scalar_roundtrip_witness:
  "is_scalar (JStr ''x'') \<and> fromInput (JStr ''x'') = Some (Node JNull [] (JStr ''x'')) \<and>
   JStr ''x'' \<noteq> JNull \<and>
   toDict (Node (JStr ''Op'') [Node JNull [] JNull] (JStr ''x'')) = Inr (CVal (JStr ''x'')) \<and>
   transform (JStr ''x'') = Inr (CVal (JStr ''x''))"
  using scalar_roundtrip [of "JStr ''x''" "JStr ''Op''" "[Node JNull [] JNull]"] by simp

section \<open>Objects without a tag\<close>

text \<open>
  C10: when the top-level value is an object without a \<open>tag\<close> field, \<open>fromInput\<close>
  returns \<open>None\<close>, the call of \<open>toDict\<close> on it raises, and the transform produces no
  output.
\<close>

theorem untagged_root_fails:
  "map_of fields ''tag'' = None \<Longrightarrow> transform (JObj fields) = Inl AttributeError"
  by (simp add: transform_def)

theorem untagged_root_fails_witness:
  "map_of [(''0'', JInt 5)] ''tag'' = None \<and>
   transform (JObj [(''0'', JInt 5)]) = Inl AttributeError"
  using untagged_root_fails [of "[(''0'', JInt 5)]"] by simp

section \<open>Constructs of variable arity\<close>

text \<open>
  In the theorems of this section \<open>es\<close> is the list of the encodings of the children:
  \<open>map toDict (children n) = map Inr es\<close> says that child \<open>i\<close> encodes, without raising,
  as \<open>es ! i\<close>.
\<close>

lemma if_pairs:
  assumes "map toDict cs = map Inr es" and "2 * m \<le> length cs"
  shows "sequence
           (map (\<lambda>i. case toDict (cs ! (i * 2)) of
                        Inl e \<Rightarrow> Inl e
                      | Inr c \<Rightarrow>
                          (case toDict (cs ! (i * 2 + 1)) of
                             Inl e \<Rightarrow> Inl e
                           | Inr b \<Rightarrow> Inr (CList [c, b])))
                [0 ..< m])
         = Inr (map (\<lambda>i. CList [es ! (2 * i), es ! (2 * i + 1)]) [0 ..< m])"
proof -
  have len: "length es = length cs"
    using assms(1) by (metis length_map)
  have nth: "toDict (cs ! j) = Inr (es ! j)" if "j < length cs" for j
    using assms(1) that len by (metis nth_map)
  have "map (\<lambda>i. case toDict (cs ! (i * 2)) of
                        Inl e \<Rightarrow> Inl e
                      | Inr c \<Rightarrow>
                          (case toDict (cs ! (i * 2 + 1)) of
                             Inl e \<Rightarrow> Inl e
                           | Inr b \<Rightarrow> Inr (CList [c, b])))
                [0 ..< m]
        = map Inr (map (\<lambda>i. CList [es ! (2 * i), es ! (2 * i + 1)]) [0 ..< m])"
    using assms(2) by (simp add: nth mult.commute)
  then show ?thesis by (simp only: sequence_map_Inr)
qed

text \<open>
  C2: an \<open>If\<close> node with \<open>2k\<close> children encodes with the branch list of the \<open>k\<close> pairs
  \<open>[encode(child 2i), encode(child 2i+1)]\<close>, \<open>i = 0, ..., k-1\<close>, in this order, and the else
  branch \<open>null\<close>; with \<open>2k+1\<close> children the branch list is the same and the else branch is
  the encoding of child \<open>2k\<close>.
\<close>

theorem if_encoding:
  assumes "tag n = JStr ''If''" and "val n = JNull"
    and "map toDict (children n) = map Inr es"
  shows "(length (children n) = 2 * k \<longrightarrow>
            toDict n = Inr (CDict [(JStr ''If'',
              CList [CList (map (\<lambda>i. CList [es ! (2 * i), es ! (2 * i + 1)]) [0 ..< k]),
                     CVal JNull])])) \<and>
         (length (children n) = 2 * k + 1 \<longrightarrow>
            toDict n = Inr (CDict [(JStr ''If'',
              CList [CList (map (\<lambda>i. CList [es ! (2 * i), es ! (2 * i + 1)]) [0 ..< k]),
                     es ! (2 * k)])]))"
proof (cases n)
  case (Node tg cs v)
  with assms have tg: "tg = JStr ''If''" and v: "v = JNull"
    and es: "map toDict cs = map Inr es" by simp_all
  have len: "length es = length cs"
    using es by (metis length_map)
  have nth: "toDict (cs ! j) = Inr (es ! j)" if "j < length cs" for j
    using es that len by (metis nth_map)
  show ?thesis
  proof (intro conjI impI)
    assume "length (children n) = 2 * k"
    with Node have l: "length cs = 2 * k" by simp
    then have "length cs div 2 = k" "length cs mod 2 = 0" by simp_all
    with if_pairs [OF es, of k] l show "toDict n = Inr (CDict [(JStr ''If'',
              CList [CList (map (\<lambda>i. CList [es ! (2 * i), es ! (2 * i + 1)]) [0 ..< k]),
                     CVal JNull])])"
      by (simp add: Node tg v)
  next
    assume "length (children n) = 2 * k + 1"
    with Node have l: "length cs = 2 * k + 1" by simp
    then have "length cs div 2 = k" "length cs mod 2 = 1" "length cs - 1 = 2 * k" by simp_all
    with if_pairs [OF es, of k] l nth [of "2 * k"] show "toDict n = Inr (CDict [(JStr ''If'',
              CList [CList (map (\<lambda>i. CList [es ! (2 * i), es ! (2 * i + 1)]) [0 ..< k]),
                     es ! (2 * k)])])"
      by (simp add: Node tg v)
  qed
qed

theorem if_encoding_witness:
  "toDict (Node (JStr ''If'') [Node JNull [] (JBool True), Node (JStr ''Break'') [] JNull] JNull)
     = Inr (CDict [(JStr ''If'',
         CList [CList [CList [CVal (JBool True), CVal (JStr ''Break'')]], CVal JNull])]) \<and>
   toDict (Node (JStr ''If'')
      [Node JNull [] (JBool True), Node (JStr ''Break'') [] JNull, Node JNull [] (JInt 7)] JNull)
     = Inr (CDict [(JStr ''If'',
         CList [CList [CList [CVal (JBool True), CVal (JStr ''Break'')]], CVal (JInt 7)])])"
proof -
  let ?c = "Node JNull [] (JBool True)" and ?b = "Node (JStr ''Break'') [] JNull"
  let ?e = "Node JNull [] (JInt 7)"
  have 2: "map toDict [?c, ?b] = map Inr [CVal (JBool True), CVal (JStr ''Break'')]"
    by simp
  have 3: "map toDict [?c, ?b, ?e]
             = map Inr [CVal (JBool True), CVal (JStr ''Break''), CVal (JInt 7)]"
    by simp
  have u: "[0 ..< 1] = [0 :: nat]" by simp
  from if_encoding [of "Node (JStr ''If'') [?c, ?b] JNull"
      "[CVal (JBool True), CVal (JStr ''Break'')]" 1, THEN conjunct1] 2
  have a: "toDict (Node (JStr ''If'') [?c, ?b] JNull)
     = Inr (CDict [(JStr ''If'',
         CList [CList [CList [CVal (JBool True), CVal (JStr ''Break'')]], CVal JNull])])"
    by (simp add: u del: toDict.simps)
  from if_encoding [of "Node (JStr ''If'') [?c, ?b, ?e] JNull"
      "[CVal (JBool True), CVal (JStr ''Break''), CVal (JInt 7)]" 1, THEN conjunct2] 3
  have b: "toDict (Node (JStr ''If'') [?c, ?b, ?e] JNull)
     = Inr (CDict [(JStr ''If'',
         CList [CList [CList [CVal (JBool True), CVal (JStr ''Break'')]], CVal (JInt 7)])])"
    by (simp add: u del: toDict.simps)
  from a b show ?thesis by (simp only: simp_thms)
qed

text \<open>
  C3: a \<open>Fornum\<close> node with exactly four children encodes as the five-element list of
  the encodings of children 0, 1 and 2, \<open>null\<close> for the step, and the encoding of child 3;
  with exactly five children, as the list of the encodings of all five; with any other
  number of children the \<open>assert\<close> fails.
\<close>

lemma length_5_obtain:
  "length xs = 5 \<Longrightarrow> \<exists>a b c d e. xs = [a, b, c, d, e]"
  by (auto simp: length_Suc_conv eval_nat_numeral)

lemma fornum5:
  assumes "length cs = 5" "toDict (cs ! 0) = Inr c0" "toDict (cs ! 1) = Inr c1"
    "toDict (cs ! 2) = Inr c2" "toDict (cs ! 3) = Inr c3" "toDict (cs ! 4) = Inr c4"
  shows "sequence (map toDict cs) = Inr [c0, c1, c2, c3, c4]"
proof -
  from assms(1) obtain a b c d e where "cs = [a, b, c, d, e]"
    using length_5_obtain by blast
  with assms(2-) show ?thesis by simp
qed

theorem fornum_encoding:
  "tag n = JStr ''Fornum'' \<Longrightarrow> val n = JNull \<Longrightarrow>
   (length (children n) = 4 \<and> toDict (children n ! 0) = Inr c0 \<and>
      toDict (children n ! 1) = Inr c1 \<and> toDict (children n ! 2) = Inr c2 \<and>
      toDict (children n ! 3) = Inr c3
      \<longrightarrow> toDict n = Inr (CDict [(JStr ''Fornum'', CList [c0, c1, c2, CVal JNull, c3])])) \<and>
   (length (children n) = 5 \<and> toDict (children n ! 0) = Inr c0 \<and>
      toDict (children n ! 1) = Inr c1 \<and> toDict (children n ! 2) = Inr c2 \<and>
      toDict (children n ! 3) = Inr c3 \<and> toDict (children n ! 4) = Inr c4
      \<longrightarrow> toDict n = Inr (CDict [(JStr ''Fornum'', CList [c0, c1, c2, c3, c4])])) \<and>
   (length (children n) \<noteq> 4 \<and> length (children n) \<noteq> 5 \<longrightarrow> toDict n = Inl AssertionError)"
  by (cases n) (simp add: fornum5 fallthrough_def)

theorem fornum_encoding_witness:
  "toDict (Node (JStr ''Fornum'')
      [Node JNull [] (JStr ''i''), Node JNull [] (JInt 1), Node JNull [] (JInt 9),
       Node (JStr ''Break'') [] JNull] JNull)
     = Inr (CDict [(JStr ''Fornum'',
         CList [CVal (JStr ''i''), CVal (JInt 1), CVal (JInt 9), CVal JNull,
                CVal (JStr ''Break'')])]) \<and>
   toDict (Node (JStr ''Fornum'')
      [Node JNull [] (JStr ''i''), Node JNull [] (JInt 1), Node JNull [] (JInt 9),
       Node JNull [] (JInt 2), Node (JStr ''Break'') [] JNull] JNull)
     = Inr (CDict [(JStr ''Fornum'',
         CList [CVal (JStr ''i''), CVal (JInt 1), CVal (JInt 9), CVal (JInt 2),
                CVal (JStr ''Break'')])]) \<and>
   toDict (Node (JStr ''Fornum'')
      [Node JNull [] (JStr ''i''), Node JNull [] (JInt 1), Node JNull [] (JInt 9)] JNull)
     = Inl AssertionError"
  using
    fornum_encoding [of "Node (JStr ''Fornum'')
        [Node JNull [] (JStr ''i''), Node JNull [] (JInt 1), Node JNull [] (JInt 9),
         Node (JStr ''Break'') [] JNull] JNull"
      "CVal (JStr ''i'')" "CVal (JInt 1)" "CVal (JInt 9)" "CVal (JStr ''Break'')"]
    fornum_encoding [of "Node (JStr ''Fornum'')
        [Node JNull [] (JStr ''i''), Node JNull [] (JInt 1), Node JNull [] (JInt 9),
         Node JNull [] (JInt 2), Node (JStr ''Break'') [] JNull] JNull"
      "CVal (JStr ''i'')" "CVal (JInt 1)" "CVal (JInt 9)" "CVal (JInt 2)" "CVal (JStr ''Break'')"]
    fornum_encoding [of "Node (JStr ''Fornum'')
        [Node JNull [] (JStr ''i''), Node JNull [] (JInt 1), Node JNull [] (JInt 9)] JNull"]
  by (simp add: fallthrough_def)

text \<open>
  C4: a \<open>Call\<close> node with \<open>n \<ge> 1\<close> children encodes as \<open>{"Call": [encode(child 0),
  argList]}\<close>, where \<open>argList\<close> is the list of the encodings of the children after the
  first (\<open>tl es\<close>), in their order: it has \<open>n - 1\<close> elements, of which element \<open>i\<close> is the
  encoding of child \<open>i + 1\<close>, and the callee is not among the arguments.
\<close>

theorem call_encoding:
  assumes "tag n = JStr ''Call''" and "val n = JNull"
    and "1 \<le> length (children n)"
    and "map toDict (children n) = map Inr es"
  shows "toDict n = Inr (CDict [(JStr ''Call'', CList [es ! 0, CList (tl es)])]) \<and>
         toDict (children n ! 0) = Inr (es ! 0) \<and>
         length (tl es) = length (children n) - 1 \<and>
         map toDict (tl (children n)) = map Inr (tl es)"
proof (cases n)
  case (Node tg cs v)
  with assms have tg: "tg = JStr ''Call''" and v: "v = JNull" and l: "1 \<le> length cs"
    and es: "map toDict cs = map Inr es" by simp_all
  have len: "length es = length cs"
    using es by (metis length_map)
  have c0: "toDict (cs ! 0) = Inr (es ! 0)"
    using es l len by (metis Suc_le_eq One_nat_def nth_map)
  have "toDict n = Inr (CDict [(JStr ''Call'', CList [es ! 0, CList (tl es)])])"
    using l c0 sequence_eq_Inr [OF es] by (simp add: Node tg v)
  moreover have "map toDict (tl cs) = map Inr (tl es)"
    using es by (simp add: map_tl)
  ultimately show ?thesis by (simp add: Node len c0)
qed

theorem call_encoding_witness:
  "toDict (Node (JStr ''Call'')
      [Node JNull [] (JStr ''f''), Node JNull [] (JInt 1), Node JNull [] (JInt 2)] JNull)
     = Inr (CDict [(JStr ''Call'',
         CList [CVal (JStr ''f''), CList [CVal (JInt 1), CVal (JInt 2)]])])"
proof -
  let ?cs = "[Node JNull [] (JStr ''f''), Node JNull [] (JInt 1), Node JNull [] (JInt 2)]"
  have es: "map toDict ?cs = map Inr [CVal (JStr ''f''), CVal (JInt 1), CVal (JInt 2)]"
    by simp
  from call_encoding [of "Node (JStr ''Call'') ?cs JNull"
      "[CVal (JStr ''f''), CVal (JInt 1), CVal (JInt 2)]", THEN conjunct1] es
  show ?thesis by (simp del: toDict.simps)
qed

section \<open>The children of an object\<close>

text \<open>
  C5, as the specification states it: the children built from the integer-parsing keys
  of an object are appended in the order of increasing numeric key, whatever the order
  of the fields.  \<open>fromInput\<close> does not sort: \<open>for k in inNode\<close> visits the keys in the
  order of the fields.  Here key \<open>1\<close> comes before key \<open>0\<close>, and so does its child.
\<close>

theorem field_order_counterexample:
  "fromInput (JObj [(''tag'', JStr ''X''), (''1'', JStr ''a''), (''0'', JStr ''b'')])
     = Some (Node (JStr ''X'') [Node JNull [] (JStr ''a''), Node JNull [] (JStr ''b'')] JNull) \<and>
   children_by_key [(''tag'', JStr ''X''), (''1'', JStr ''a''), (''0'', JStr ''b'')]
     = [Node JNull [] (JStr ''b''), Node JNull [] (JStr ''a'')]"
  by (simp add: children_by_key_def key_int_def reprsInt_eval fromValue_def)

text \<open>
  C5, amended: the children built from the integer-parsing keys of an object are
  appended in the order in which the fields appear in the object; this is the order of
  increasing numeric key whenever the integer-parsing keys appear in that order.
\<close>

theorem children_in_field_order:
  assumes "distinct (map fst fields)" and "map_of fields ''tag'' = Some t"
  shows "fromInput (JObj fields)
           = Some (Node t
               (append_nodes (map (fromInput \<circ> snd) (filter (reprsInt \<circ> fst) fields))) JNull) \<and>
         (sorted (map (key_int \<circ> fst) (filter (reprsInt \<circ> fst) fields)) \<longrightarrow>
            fromInput (JObj fields) = Some (Node t (children_by_key fields) JNull))"
  using assms
  by (simp add: fromInput_items children_by_key_def sort_key_id_if_sorted del: map_map)

theorem children_in_field_order_witness:
  "fromInput (JObj [(''0'', JStr ''a''), (''tag'', JStr ''X''), (''name'', JInt 3),
                    (''1'', JObj [(''tag'', JStr ''Break'')])])
     = Some (Node (JStr ''X'')
               [Node JNull [] (JStr ''a''), Node (JStr ''Break'') [] JNull] JNull) \<and>
   children_by_key [(''0'', JStr ''a''), (''tag'', JStr ''X''), (''name'', JInt 3),
                    (''1'', JObj [(''tag'', JStr ''Break'')])]
     = [Node JNull [] (JStr ''a''), Node (JStr ''Break'') [] JNull]"
proof -
  let ?fields = "[(''0'', JStr ''a''), (''tag'', JStr ''X''), (''name'', JInt 3),
                  (''1'', JObj [(''tag'', JStr ''Break'')])]"
  have d: "distinct (map fst ?fields)" by simp
  have t: "map_of ?fields ''tag'' = Some (JStr ''X'')" by simp
  have f: "filter (reprsInt \<circ> fst) ?fields
             = [(''0'', JStr ''a''), (''1'', JObj [(''tag'', JStr ''Break'')])]"
    by (simp add: reprsInt_eval)
  have s: "sorted (map (key_int \<circ> fst) (filter (reprsInt \<circ> fst) ?fields))"
    unfolding f by (simp add: key_int_def reprsInt_eval)
  note r = children_in_field_order [OF d t]
  have c: "append_nodes (map (fromInput \<circ> snd) (filter (reprsInt \<circ> fst) ?fields))
             = [Node JNull [] (JStr ''a''), Node (JStr ''Break'') [] JNull]"
    by (simp add: reprsInt_eval fromValue_def)
  have a: "fromInput (JObj ?fields)
     = Some (Node (JStr ''X'')
               [Node JNull [] (JStr ''a''), Node (JStr ''Break'') [] JNull] JNull)"
    using r [THEN conjunct1] unfolding c .
  from r [THEN conjunct2, THEN mp, OF s] a
  have "children_by_key ?fields = [Node JNull [] (JStr ''a''), Node (JStr ''Break'') [] JNull]"
    by (simp only: option.inject Node.inject)
  with a show ?thesis by (simp only: simp_thms)
qed

text \<open>
  C6: an object without a \<open>tag\<close> field yields no node; where it is an element of a list or
  the value of a field other than \<open>tag\<close> of an object, the parent is built exactly as if
  the element or field were not there: nothing stands in its place, and the other
  children keep their order.
\<close>

lemma drop_field:
  assumes d: "distinct (map fst (fs1 @ (k, JObj u) # fs2))"
    and k: "k \<noteq> ''tag''" and u: "map_of u ''tag'' = None"
  shows "fromInput (JObj (fs1 @ (k, JObj u) # fs2)) = fromInput (JObj (fs1 @ fs2))"
proof -
  from d have d': "distinct (map fst (fs1 @ fs2))" by simp
  have t: "map_of (fs1 @ (k, JObj u) # fs2) ''tag'' = map_of (fs1 @ fs2) ''tag''"
    using k by (simp add: map_add_def split: option.splits)
  have c: "append_nodes (map (fromInput \<circ> snd)
               (filter (reprsInt \<circ> fst) (fs1 @ (k, JObj u) # fs2)))
         = append_nodes (map (fromInput \<circ> snd) (filter (reprsInt \<circ> fst) (fs1 @ fs2)))"
    using u by (simp add: append_nodes_append)
  show ?thesis
    unfolding fromInput.simps t fromInput_items [OF d] fromInput_items [OF d'] c ..
qed

theorem untagged_object_dropped:
  assumes "map_of u ''tag'' = None"
  shows "fromInput (JObj u) = None \<and>
         fromInput (JArr (xs @ JObj u # ys)) = fromInput (JArr (xs @ ys)) \<and>
         (distinct (map fst (fs1 @ (k, JObj u) # fs2)) \<and> k \<noteq> ''tag'' \<longrightarrow>
            fromInput (JObj (fs1 @ (k, JObj u) # fs2)) = fromInput (JObj (fs1 @ fs2)))"
  using assms drop_field [of fs1 k u fs2]
  by (simp add: append_nodes_append)

theorem untagged_object_dropped_witness:
  "fromInput (JObj [(''pos'', JInt 4)]) = None \<and>
   fromInput (JArr [JInt 1, JObj [(''pos'', JInt 4)], JInt 2])
     = Some (Node JNull [Node JNull [] (JInt 1), Node JNull [] (JInt 2)] JNull) \<and>
   fromInput (JObj [(''tag'', JStr ''Local''), (''0'', JInt 1), (''1'', JObj [(''pos'', JInt 4)]),
                    (''2'', JInt 2)])
     = Some (Node (JStr ''Local'') [Node JNull [] (JInt 1), Node JNull [] (JInt 2)] JNull)"
proof -
  let ?u = "[(''pos'', JInt 4)]"
  have u: "map_of ?u ''tag'' = None" by simp
  note r = untagged_object_dropped [OF u, of "[JInt 1]" "[JInt 2]"
      "[(''tag'', JStr ''Local''), (''0'', JInt 1)]" "''1''" "[(''2'', JInt 2)]"]
  have a: "fromInput (JObj ?u) = None"
    by (rule r [THEN conjunct1])
  have "fromInput (JArr ([JInt 1] @ JObj ?u # [JInt 2])) = fromInput (JArr ([JInt 1] @ [JInt 2]))"
    by (rule r [THEN conjunct2, THEN conjunct1])
  then have b: "fromInput (JArr [JInt 1, JObj ?u, JInt 2])
     = Some (Node JNull [Node JNull [] (JInt 1), Node JNull [] (JInt 2)] JNull)"
    by (simp add: fromValue_def)
  have "fromInput (JObj ([(''tag'', JStr ''Local''), (''0'', JInt 1)] @ (''1'', JObj ?u) # [(''2'', JInt 2)]))
      = fromInput (JObj ([(''tag'', JStr ''Local''), (''0'', JInt 1)] @ [(''2'', JInt 2)]))"
    by (rule r [THEN conjunct2, THEN conjunct2, THEN mp]) simp
  then have c: "fromInput (JObj [(''tag'', JStr ''Local''), (''0'', JInt 1), (''1'', JObj ?u),
                    (''2'', JInt 2)])
     = Some (Node (JStr ''Local'') [Node JNull [] (JInt 1), Node JNull [] (JInt 2)] JNull)"
    by (simp add: fromValue_def reprsInt_eval)
  from a b c show ?thesis by (simp only: simp_thms)
qed

section \<open>A tag that is not a string\<close>

text \<open>
  C9, as the specification states it: an object whose \<open>tag\<close> field is present but is not
  a string makes the transform fail with an input-shape error, before any encoding.
  \<open>fromInput\<close> assigns \<open>inNode["tag"]\<close> to \<open>result.tag\<close> without looking at it, and for the
  number \<open>5\<close> the encoder's last rule makes it the key of the result.
\<close>

theorem nonstring_tag_counterexample:
  "map_of [(''tag'', JInt 5), (''0'', JStr ''x'')] ''tag'' = Some (JInt 5) \<and>
   transform (JObj [(''tag'', JInt 5), (''0'', JStr ''x'')])
     = Inr (CDict [(JInt 5, CList [CVal (JStr ''x'')])])"
  by (simp add: transform_def fromValue_def fallthrough_def reprsInt_eval)

text \<open>
  C9, amended: an object whose \<open>tag\<close> field is present but is not a string is not
  rejected.  The Tree Builder yields a node that carries the value of the field as its
  tag, and the encoder applies its last rule to it: when the tag is \<open>null\<close> the result is
  the list of the encoded children, when it is a number or a boolean the result is the
  single-key mapping from the tag to that list, and when it is a list or an object the
  encoding fails with a \<open>TypeError\<close>, after the children have been encoded.
\<close>

theorem nonstring_tag_not_rejected:
  assumes "map_of fields ''tag'' = Some t" and "\<forall>s. t \<noteq> JStr s"
  shows "\<exists>cs. fromInput (JObj fields) = Some (Node t cs JNull) \<and>
          transform (JObj fields) =
            (case sequence (map toDict cs) of
               Inl e \<Rightarrow> Inl e
             | Inr v \<Rightarrow>
                 if t = JNull then Inr (CList v)
                 else if hashable t then Inr (CDict [(t, CList v)])
                 else Inl TypeError)"
  using assms by (simp add: transform_def fallthrough_def)

theorem nonstring_tag_not_rejected_witness:
  "transform (JObj [(''tag'', JArr []), (''0'', JStr ''x'')]) = Inl TypeError"
proof -
  let ?fields = "[(''tag'', JArr []), (''0'', JStr ''x'')]"
  have t: "map_of ?fields ''tag'' = Some (JArr [])" by simp
  have s: "\<forall>s. JArr [] \<noteq> JStr s" by simp
  from nonstring_tag_not_rejected [OF t s] obtain cs
    where n: "fromInput (JObj ?fields) = Some (Node (JArr []) cs JNull)"
      and r: "transform (JObj ?fields) =
            (case sequence (map toDict cs) of
               Inl e \<Rightarrow> Inl e
             | Inr v \<Rightarrow>
                 if JArr [] = JNull then Inr (CList v)
                 else if hashable (JArr []) then Inr (CDict [(JArr [], CList v)])
                 else Inl TypeError)"
    by blast
  from n have "cs = [Node JNull [] (JStr ''x'')]"
    by (simp add: fromValue_def reprsInt_eval)
  with r show ?thesis by simp
qed

end
